theory Spec2Isabelle
  imports Complex_Main
begin

section \<open>Numbers as the strategies see them\<close>

text \<open>
  The strategies compute on numpy/pandas float arrays. The model keeps the special values
  of that arithmetic that the code relies on (not-a-number for a missing value, the two
  infinities a division by zero yields) and takes every finite value as an exact real:
  rounding and the sign of zero are left out.
\<close>

datatype fnum = Fin real | PInf | NInf | NaN

fun fneg :: "fnum \<Rightarrow> fnum" where
  "fneg (Fin x) = Fin (- x)"
| "fneg PInf = NInf"
| "fneg NInf = PInf"
| "fneg NaN = NaN"

fun fadd :: "fnum \<Rightarrow> fnum \<Rightarrow> fnum" where
  "fadd NaN _ = NaN"
| "fadd _ NaN = NaN"
| "fadd (Fin a) (Fin b) = Fin (a + b)"
| "fadd PInf NInf = NaN"
| "fadd NInf PInf = NaN"
| "fadd PInf _ = PInf"
| "fadd _ PInf = PInf"
| "fadd NInf _ = NInf"
| "fadd _ NInf = NInf"

definition fsub :: "fnum \<Rightarrow> fnum \<Rightarrow> fnum" where
  "fsub a b = fadd a (fneg b)"

fun fmul :: "fnum \<Rightarrow> fnum \<Rightarrow> fnum" where
  "fmul NaN _ = NaN"
| "fmul _ NaN = NaN"
| "fmul (Fin a) (Fin b) = Fin (a * b)"
| "fmul (Fin a) PInf = (if a > 0 then PInf else if a < 0 then NInf else NaN)"
| "fmul (Fin a) NInf = (if a > 0 then NInf else if a < 0 then PInf else NaN)"
| "fmul PInf (Fin b) = (if b > 0 then PInf else if b < 0 then NInf else NaN)"
| "fmul NInf (Fin b) = (if b > 0 then NInf else if b < 0 then PInf else NaN)"
| "fmul PInf PInf = PInf"
| "fmul NInf NInf = PInf"
| "fmul PInf NInf = NInf"
| "fmul NInf PInf = NInf"

text \<open>
  Division of arrays never raises: a finite value over zero is an infinity of the sign of
  the numerator, and zero over zero is not-a-number.
\<close>

fun fdiv :: "fnum \<Rightarrow> fnum \<Rightarrow> fnum" where
  "fdiv NaN _ = NaN"
| "fdiv _ NaN = NaN"
| "fdiv (Fin a) (Fin b) =
     (if b \<noteq> 0 then Fin (a / b)
      else if a > 0 then PInf else if a < 0 then NInf else NaN)"
| "fdiv (Fin a) PInf = Fin 0"
| "fdiv (Fin a) NInf = Fin 0"
| "fdiv PInf (Fin b) = (if b \<ge> 0 then PInf else NInf)"
| "fdiv NInf (Fin b) = (if b \<ge> 0 then NInf else PInf)"
| "fdiv _ _ = NaN"

text \<open>Every comparison with not-a-number is false.\<close>

fun flt :: "fnum \<Rightarrow> fnum \<Rightarrow> bool" where
  "flt NaN _ = False"
| "flt _ NaN = False"
| "flt (Fin a) (Fin b) = (a < b)"
| "flt (Fin a) PInf = True"
| "flt NInf (Fin b) = True"
| "flt NInf PInf = True"
| "flt _ _ = False"

definition fgt :: "fnum \<Rightarrow> fnum \<Rightarrow> bool" where
  "fgt a b = flt b a"

definition fle :: "fnum \<Rightarrow> fnum \<Rightarrow> bool" where
  "fle a b = (a \<noteq> NaN \<and> b \<noteq> NaN \<and> (a = b \<or> flt a b))"

definition isna :: "fnum \<Rightarrow> bool" where
  "isna x = (x = NaN)"

section \<open>Series operations used by \<open>RSIMeanReversion.init\<close> (main.py)\<close>

text \<open>\<open>Series.diff()\<close>: the first entry has no predecessor and is not-a-number.\<close>

fun diff_from :: "fnum \<Rightarrow> fnum list \<Rightarrow> fnum list" where
  "diff_from prev [] = []"
| "diff_from prev (x # xs) = fsub x prev # diff_from x xs"

definition diff :: "fnum list \<Rightarrow> fnum list" where
  "diff xs = diff_from NaN xs"

text \<open>\<open>s.where(cond, other)\<close>: keeps an entry where the condition holds, else \<open>other\<close>.\<close>

definition where_else :: "(fnum \<Rightarrow> bool) \<Rightarrow> fnum \<Rightarrow> fnum list \<Rightarrow> fnum list" where
  "where_else cond other xs = map (\<lambda>x. if cond x then x else other) xs"

definition fsum :: "fnum list \<Rightarrow> fnum" where
  "fsum xs = foldl fadd (Fin 0) xs"

text \<open>
  \<open>s.rolling(window=n, min_periods=m).mean()\<close>: at index \<open>i\<close> the window holds the last
  \<open>n\<close> entries up to \<open>i\<close>; the mean is taken over the entries that are numbers, and is
  not-a-number when fewer than \<open>m\<close> of them exist (or none at all).
\<close>

definition window_at :: "nat \<Rightarrow> fnum list \<Rightarrow> nat \<Rightarrow> fnum list" where
  "window_at n xs i = drop (Suc i - n) (take (Suc i) xs)"

definition mean_obs :: "nat \<Rightarrow> fnum list \<Rightarrow> fnum" where
  "mean_obs m w =
     (let obs = filter (\<lambda>x. \<not> isna x) w
      in if length obs < m \<or> obs = [] then NaN
         else fdiv (fsum obs) (Fin (real (length obs))))"

definition rolling_mean :: "nat \<Rightarrow> nat \<Rightarrow> fnum list \<Rightarrow> fnum list" where
  "rolling_mean n m xs = map (\<lambda>i. mean_obs m (window_at n xs i)) [0..<length xs]"

text \<open>The intermediate series of \<open>init\<close>, one definition per assignment of the source.\<close>

definition delta_of :: "real list \<Rightarrow> fnum list" where
  "delta_of close = diff (map Fin close)"

definition gain_of :: "real list \<Rightarrow> fnum list" where
  "gain_of close = where_else (\<lambda>d. fgt d (Fin 0)) (Fin 0) (delta_of close)"

definition loss_of :: "real list \<Rightarrow> fnum list" where
  "loss_of close = map fneg (where_else (\<lambda>d. flt d (Fin 0)) (Fin 0) (delta_of close))"

definition avg_gain_of :: "nat \<Rightarrow> real list \<Rightarrow> fnum list" where
  "avg_gain_of rsi_period close = rolling_mean rsi_period rsi_period (gain_of close)"

definition avg_loss_of :: "nat \<Rightarrow> real list \<Rightarrow> fnum list" where
  "avg_loss_of rsi_period close = rolling_mean rsi_period rsi_period (loss_of close)"

definition rs_of :: "nat \<Rightarrow> real list \<Rightarrow> fnum list" where
  "rs_of rsi_period close =
     map2 fdiv (avg_gain_of rsi_period close) (avg_loss_of rsi_period close)"

text \<open>\<open>rsi = 100 - (100 / (1 + rs))\<close>, entry by entry.\<close>

definition rsi_from_rs :: "fnum \<Rightarrow> fnum" where
  "rsi_from_rs rs = fsub (Fin 100) (fdiv (Fin 100) (fadd (Fin 1) rs))"

definition RSIMeanReversion_init :: "nat \<Rightarrow> real list \<Rightarrow> fnum list" where
  "RSIMeanReversion_init rsi_period close = map rsi_from_rs (rs_of rsi_period close)"


text \<open>
  The reading of the same computation in the words of the specification: the gain and the
  loss of bar \<open>j\<close> against the bar before it (the first bar has neither), and the simple
  mean of the last \<open>n\<close> values up to bar \<open>i\<close>.
\<close>

definition gain_at :: "real list \<Rightarrow> nat \<Rightarrow> real" where
  "gain_at close j = (if j = 0 then 0 else max 0 (close ! j - close ! (j - 1)))"

definition loss_at :: "real list \<Rightarrow> nat \<Rightarrow> real" where
  "loss_at close j = (if j = 0 then 0 else max 0 (close ! (j - 1) - close ! j))"

definition sma :: "nat \<Rightarrow> (nat \<Rightarrow> real) \<Rightarrow> nat \<Rightarrow> real" where
  "sma n f i = (\<Sum>j = Suc i - n..<Suc i. f j) / real n"

section \<open>Positions, actions and errors\<close>

text \<open>
  The strategies see the position through its truth value (\<open>not self.position\<close>),
  \<open>is_long\<close> and \<open>is_short\<close>, and act through \<open>self.buy\<close>, \<open>self.sell\<close> (with an
  optional stop-loss \<open>sl\<close>) and \<open>self.position.close\<close>.
\<close>

datatype direction = Flat | Long | Short

definition is_long :: "direction \<Rightarrow> bool" where
  "is_long pos = (pos = Long)"

definition is_short :: "direction \<Rightarrow> bool" where
  "is_short pos = (pos = Short)"

datatype action = NoAction | Buy "fnum option" | Sell "fnum option" | ClosePosition

datatype error = IndexError | ZeroDivisionError | DataInsufficient | RuntimeError string

datatype diagnostic =
    NotEnoughData
  | IllogicalSLBuy fnum real
  | IllogicalSLSell fnum real
  | StrategyInitialized

text \<open>\<open>xs[-1]\<close> raises on an empty array.\<close>

definition last_of :: "'a list \<Rightarrow> error + 'a" where
  "last_of xs = (if xs = [] then Inl IndexError else Inr (last xs))"

text \<open>\<open>xs[-k]\<close> for \<open>1 \<le> k \<le> len(xs)\<close>; the callers check the length first.\<close>

definition nth_back :: "'a list \<Rightarrow> nat \<Rightarrow> 'a" where
  "nth_back xs k = xs ! (length xs - k)"

section \<open>Strategy parameters\<close>

record rsi_params =
  rsi_period :: nat
  oversold :: real
  overbought :: real
  exit_level :: real

record tf_params = rsi_params +
  ema_period :: nat
  atr_period :: nat
  stop_loss_atr_multiplier :: real

definition RSIMeanReversion_defaults :: rsi_params where
  "RSIMeanReversion_defaults =
     \<lparr>rsi_period = 14, oversold = 30, overbought = 70, exit_level = 50\<rparr>"

definition TrendFilteredRSI_defaults :: tf_params where
  "TrendFilteredRSI_defaults =
     \<lparr>rsi_period = 14, oversold = 30, overbought = 70, exit_level = 50,
      ema_period = 200, atr_period = 14, stop_loss_atr_multiplier = 2\<rparr>"

section \<open>\<open>RSIMeanReversion.next\<close> (main.py)\<close>

definition RSIMeanReversion_next ::
  "'a rsi_params_scheme \<Rightarrow> direction \<Rightarrow> fnum list \<Rightarrow> error + action" where
  "RSIMeanReversion_next p pos rsi_seen =
     (case last_of rsi_seen of
        Inl e \<Rightarrow> Inl e
      | Inr r \<Rightarrow>
          if pos = Flat then
            (if flt r (Fin (oversold p)) then Inr (Buy None)
             else if fgt r (Fin (overbought p)) then Inr (Sell None)
             else Inr NoAction)
          else
            (if is_long pos \<and> fgt r (Fin (exit_level p)) then Inr ClosePosition
             else if is_short pos \<and> flt r (Fin (exit_level p)) then Inr ClosePosition
             else Inr NoAction))"

text \<open>
  Modelled from the spec: the position and order manager is the backtesting framework's,
  which is not part of the sources. Section 4.3 of the specification gives its
  transitions: flat to long on an entry long, flat to short on an entry short, long or
  short to flat on a close, and an entry while a position is open is ignored. The
  stop-triggered exits of that section are left out here: this strategy places its
  orders without a stop-loss.
\<close>

fun apply_action :: "direction \<Rightarrow> action \<Rightarrow> direction" where
  "apply_action Flat (Buy sl) = Long"
| "apply_action Flat (Sell sl) = Short"
| "apply_action Long ClosePosition = Flat"
| "apply_action Short ClosePosition = Flat"
| "apply_action pos a = pos"

text \<open>
  One record per simulated bar: its index, the position the decision step saw, what it
  did, and the position after the order manager applied it.
\<close>

record step =
  bar_index :: nat
  pos_before :: direction
  act :: action
  pos_after :: direction

text \<open>
  Modelled from the spec: the warm-up belongs to the simulation loop of the backtesting
  framework, which is not part of the sources. In the specification (section 4.4 and the
  glossary) the warm-up of an indicator is the number of bars before it yields a defined
  value, and the decision step is skipped on every bar before it is over: the first bar
  decided on is the one after the first defined value. The specification fixes nothing
  for an indicator that is never defined; the loop then starts at the second bar, where
  every decision is taken on not-a-number.
\<close>

definition warm_up :: "fnum list \<Rightarrow> nat" where
  "warm_up ind = (if list_all isna ind then 1 else Suc (length (takeWhile isna ind)))"

text \<open>
  Modelled from the spec: the simulation loop is the backtesting framework's, which is
  not part of the sources. Section 4.4 of the specification has it go through the bars in
  order and, at each bar after the warm-up, call the decision step with the indicator
  values up to that bar and the current position, then apply the resulting transition of
  the order manager before the next bar. \<open>seen\<close> holds the indicator values of the bars
  gone by, \<open>rest\<close> those of the bars to come.
\<close>

fun run_bars ::
  "'a rsi_params_scheme \<Rightarrow> direction \<Rightarrow> fnum list \<Rightarrow> fnum list \<Rightarrow> error + step list" where
  "run_bars p pos seen [] = Inr []"
| "run_bars p pos seen (r # rest) =
     (case RSIMeanReversion_next p pos (seen @ [r]) of
        Inl e \<Rightarrow> Inl e
      | Inr a \<Rightarrow>
          (case run_bars p (apply_action pos a) (seen @ [r]) rest of
             Inl e \<Rightarrow> Inl e
           | Inr steps \<Rightarrow>
               Inr (\<lparr>bar_index = length seen, pos_before = pos, act = a,
                     pos_after = apply_action pos a\<rparr> # steps)))"

text \<open>
  \<open>run_backtest\<close> hands the data and the strategy to the framework and runs it: \<open>init\<close>
  computes the RSI series once, and the loop starts flat, after the warm-up of that
  series.
\<close>

definition run_backtest :: "'a rsi_params_scheme \<Rightarrow> real list \<Rightarrow> error + step list" where
  "run_backtest p close =
     (let rsi = RSIMeanReversion_init (rsi_period p) close
      in run_bars p Flat (take (warm_up rsi) rsi) (drop (warm_up rsi) rsi))"

definition is_entry :: "action \<Rightarrow> bool" where
  "is_entry a = (case a of Buy sl \<Rightarrow> True | Sell sl \<Rightarrow> True | _ \<Rightarrow> False)"

text \<open>
  The orders of a run so far: how many entries (buy or sell) and how many closes the
  decision steps have placed. Their difference is the number of positions open.
\<close>

definition entries_placed :: "step list \<Rightarrow> nat" where
  "entries_placed steps = length (filter (\<lambda>s. is_entry (act s)) steps)"

definition closes_placed :: "step list \<Rightarrow> nat" where
  "closes_placed steps = length (filter (\<lambda>s. act s = ClosePosition) steps)"

section \<open>\<open>MACDCrossover.ema\<close> (macd.py)\<close>

text \<open>
  The loop of the helper: each entry is \<open>alpha * arr[i] + (1 - alpha) * ema_arr[i - 1]\<close>,
  the previous entry being carried along.
\<close>

fun ema_loop :: "real \<Rightarrow> real \<Rightarrow> real list \<Rightarrow> real list" where
  "ema_loop alpha prev [] = []"
| "ema_loop alpha prev (x # xs) =
     (alpha * x + (1 - alpha) * prev) # ema_loop alpha (alpha * x + (1 - alpha) * prev) xs"

text \<open>
  \<open>alpha = 2 / (n + 1)\<close> raises for \<open>n = -1\<close>; \<open>ema_arr[0] = arr[0]\<close> raises on an
  empty array.
\<close>

definition ema :: "real list \<Rightarrow> int \<Rightarrow> error + real list" where
  "ema arr n =
     (if n + 1 = 0 then Inl ZeroDivisionError
      else case arr of
             [] \<Rightarrow> Inl IndexError
           | x # xs \<Rightarrow> Inr (x # ema_loop (2 / real_of_int (n + 1)) x xs))"

section \<open>\<open>MACDCrossover.next\<close> (macd.py)\<close>

definition MACDCrossover_next :: "direction \<Rightarrow> fnum list \<Rightarrow> fnum list \<Rightarrow> action" where
  "MACDCrossover_next pos macd_line signal_line =
     (if length macd_line < 2 \<or> length signal_line < 2 then NoAction
      else if pos = Flat \<and> flt (nth_back macd_line 2) (nth_back signal_line 2)
                \<and> fgt (nth_back macd_line 1) (nth_back signal_line 1) then Buy None
      else if pos = Flat \<and> fgt (nth_back macd_line 2) (nth_back signal_line 2)
                \<and> flt (nth_back macd_line 1) (nth_back signal_line 1) then Sell None
      else if is_long pos \<and> fgt (nth_back macd_line 2) (nth_back signal_line 2)
                \<and> flt (nth_back macd_line 1) (nth_back signal_line 1) then ClosePosition
      else if is_short pos \<and> flt (nth_back macd_line 2) (nth_back signal_line 2)
                \<and> fgt (nth_back macd_line 1) (nth_back signal_line 1) then ClosePosition
      else NoAction)"

text \<open>
  The decision as a function of the two pairs alone: the values of the MACD and signal
  lines at the previous bar and at the current bar.
\<close>

definition cross_decision ::
  "direction \<Rightarrow> fnum \<times> fnum \<Rightarrow> fnum \<times> fnum \<Rightarrow> action" where
  "cross_decision pos prev cur =
     (if pos = Flat \<and> flt (fst prev) (snd prev) \<and> fgt (fst cur) (snd cur) then Buy None
      else if pos = Flat \<and> fgt (fst prev) (snd prev) \<and> flt (fst cur) (snd cur) then Sell None
      else if pos = Long \<and> fgt (fst prev) (snd prev) \<and> flt (fst cur) (snd cur)
        then ClosePosition
      else if pos = Short \<and> flt (fst prev) (snd prev) \<and> fgt (fst cur) (snd cur)
        then ClosePosition
      else NoAction)"

text \<open>
  The decisions of a run of bars during which the position stays the given one: at bar
  \<open>j\<close> the strategy sees both lines up to and including \<open>j\<close>.
\<close>

definition decisions_while :: "direction \<Rightarrow> fnum list \<Rightarrow> fnum list \<Rightarrow> action list" where
  "decisions_while pos macd_line signal_line =
     map (\<lambda>j. MACDCrossover_next pos (take (Suc j) macd_line) (take (Suc j) signal_line))
       [0..<length macd_line]"

section \<open>\<open>TrendFilteredRSI\<close> (trendfilteredrsi.py)\<close>

text \<open>
  What the strategy reads at a bar: the closes and its three indicator arrays, each cut
  at the current bar, and the position.
\<close>

record tf_view =
  self_data_Close :: "real list"
  self_rsi :: "fnum list"
  self_ema_long :: "fnum list"
  self_atr :: "fnum list"
  self_position :: direction

text \<open>
  The data frame handed to the strategy: one row per bar, with the five columns that
  \<open>load_data\<close> names.
\<close>

record bar =
  Open :: real
  High :: real
  Low :: real
  Close :: real
  Volume :: real




text \<open>Twenty bars, all alike: fewer than the default trend window of 200.\<close>

definition twenty_bars :: "bar list" where
  "twenty_bars =
     replicate 20 \<lparr>Open = 11 / 10, High = 12 / 10, Low = 1, Close = 11 / 10, Volume = 100\<rparr>"

text \<open>
  Modelled from the spec: \<open>crossover\<close> is imported from the backtesting library, not part
  of the sources. The specification (section 4.2) has the exits detect the crossing as
  the sign change between the previous and the current bar: the first series was below
  the second at the previous bar and is above it at the current one. A number stands for
  the constant series; with fewer than two values there is no crossing.
\<close>

definition last_two :: "fnum list \<Rightarrow> (fnum \<times> fnum) option" where
  "last_two xs = (if length xs < 2 then None else Some (nth_back xs 2, nth_back xs 1))"

definition level :: "real \<Rightarrow> (fnum \<times> fnum) option" where
  "level x = Some (Fin x, Fin x)"

definition crossover :: "(fnum \<times> fnum) option \<Rightarrow> (fnum \<times> fnum) option \<Rightarrow> bool" where
  "crossover a b =
     (case (a, b) of
        (Some (a2, a1), Some (b2, b1)) \<Rightarrow> flt a2 b2 \<and> fgt a1 b1
      | _ \<Rightarrow> False)"

definition TrendFilteredRSI_next :: "tf_params \<Rightarrow> tf_view \<Rightarrow> error + action \<times> diagnostic list" where
  "TrendFilteredRSI_next p s =
     (if length (self_data_Close s) < max (rsi_period p) (max (ema_period p) (atr_period p))
      then Inr (NoAction, [])
      else
       (case last_of (self_data_Close s) of Inl e \<Rightarrow> Inl e | Inr current_price \<Rightarrow>
       (case last_of (self_rsi s) of Inl e \<Rightarrow> Inl e | Inr current_rsi \<Rightarrow>
       (case last_of (self_ema_long s) of Inl e \<Rightarrow> Inl e | Inr current_ema \<Rightarrow>
       (case last_of (self_atr s) of Inl e \<Rightarrow> Inl e | Inr current_atr \<Rightarrow>
         if isna current_rsi \<or> isna current_ema \<or> isna current_atr
            \<or> fle current_atr (Fin 0)
         then Inr (NoAction, [])
         else
          (let long_stop_loss =
                 fsub (Fin current_price) (fmul (Fin (stop_loss_atr_multiplier p)) current_atr);
               short_stop_loss =
                 fadd (Fin current_price) (fmul (Fin (stop_loss_atr_multiplier p)) current_atr);
               is_uptrend = fgt (Fin current_price) current_ema;
               is_downtrend = flt (Fin current_price) current_ema;
               is_oversold = flt current_rsi (Fin (oversold p));
               is_overbought = fgt current_rsi (Fin (overbought p));
               rsi_crossed_above_exit = crossover (last_two (self_rsi s)) (level (exit_level p));
               rsi_crossed_below_exit = crossover (level (exit_level p)) (last_two (self_rsi s))
           in if self_position s = Flat then
                (if is_uptrend \<and> is_oversold then
                   (if flt long_stop_loss (Fin current_price)
                    then Inr (Buy (Some long_stop_loss), [])
                    else Inr (NoAction, [IllogicalSLBuy long_stop_loss current_price]))
                 else if is_downtrend \<and> is_overbought then
                   (if fgt short_stop_loss (Fin current_price)
                    then Inr (Sell (Some short_stop_loss), [])
                    else Inr (NoAction, [IllogicalSLSell short_stop_loss current_price]))
                 else Inr (NoAction, []))
              else
                (if is_long (self_position s) \<and> rsi_crossed_above_exit
                 then Inr (ClosePosition, [])
                 else if is_short (self_position s) \<and> rsi_crossed_below_exit
                 then Inr (ClosePosition, [])
                 else Inr (NoAction, []))))))))"


text \<open>The guards of \<open>next\<close> passed: enough history, and every indicator usable.\<close>

definition tf_ready :: "tf_params \<Rightarrow> tf_view \<Rightarrow> bool" where
  "tf_ready p s =
     (\<not> length (self_data_Close s) < max (rsi_period p) (max (ema_period p) (atr_period p))
      \<and> self_data_Close s \<noteq> [] \<and> self_rsi s \<noteq> [] \<and> self_ema_long s \<noteq> []
      \<and> self_atr s \<noteq> []
      \<and> \<not> isna (last (self_rsi s)) \<and> \<not> isna (last (self_ema_long s))
      \<and> \<not> isna (last (self_atr s)) \<and> \<not> fle (last (self_atr s)) (Fin 0))"

definition long_stop :: "tf_params \<Rightarrow> tf_view \<Rightarrow> fnum" where
  "long_stop p s =
     fsub (Fin (last (self_data_Close s)))
       (fmul (Fin (stop_loss_atr_multiplier p)) (last (self_atr s)))"

definition short_stop :: "tf_params \<Rightarrow> tf_view \<Rightarrow> fnum" where
  "short_stop p s =
     fadd (Fin (last (self_data_Close s)))
       (fmul (Fin (stop_loss_atr_multiplier p)) (last (self_atr s)))"

text \<open>What the guard of the decision step gives for one step of a run.\<close>

definition step_ok :: "step \<Rightarrow> bool" where
  "step_ok s =
     (pos_before s \<noteq> Flat \<longrightarrow>
        \<not> is_entry (act s) \<and> (pos_after s = pos_before s \<or> pos_after s = Flat))"

text \<open>The number of positions open in a given state of the order manager.\<close>

definition open_count :: "direction \<Rightarrow> nat" where
  "open_count pos = (if pos = Flat then 0 else 1)"

section \<open>The RSI of \<open>RSIMeanReversion.init\<close>\<close>

lemma length_diff_from [simp]: "length (diff_from prev xs) = length xs"
  by (induction xs arbitrary: prev) simp_all

lemma nth_diff_from:
  "j < length xs \<Longrightarrow>
   diff_from prev xs ! j = fsub (xs ! j) (if j = 0 then prev else xs ! (j - 1))"
proof (induction xs arbitrary: prev j)
  case Nil
  then show ?case by simp
next
  case (Cons x xs)
  show ?case
  proof (cases j)
    case 0
    then show ?thesis by simp
  next
    case (Suc k)
    with Cons.prems have "k < length xs" by simp
    from Cons.IH [OF this, of x] Suc show ?thesis
      by (cases k) simp_all
  qed
qed

lemma length_delta_of [simp]: "length (delta_of close) = length close"
  by (simp add: delta_of_def diff_def)

lemma nth_delta_of:
  "j < length close \<Longrightarrow>
   delta_of close ! j = (if j = 0 then NaN else Fin (close ! j - close ! (j - 1)))"
  by (simp add: delta_of_def diff_def nth_diff_from fsub_def)

lemma length_gain_of [simp]: "length (gain_of close) = length close"
  by (simp add: gain_of_def where_else_def)

lemma length_loss_of [simp]: "length (loss_of close) = length close"
  by (simp add: loss_of_def where_else_def)

lemma nth_gain_of: "j < length close \<Longrightarrow> gain_of close ! j = Fin (gain_at close j)"
  by (simp add: gain_of_def where_else_def nth_delta_of gain_at_def fgt_def max_def)

lemma nth_loss_of: "j < length close \<Longrightarrow> loss_of close ! j = Fin (loss_at close j)"
  by (auto simp add: loss_of_def where_else_def nth_delta_of loss_at_def max_def)

lemma window_at_nth:
  assumes "i < length xs"
  shows "window_at n xs i = map (\<lambda>j. xs ! j) [Suc i - n..<Suc i]"
proof -
  have "take (Suc i) xs = map (\<lambda>j. xs ! j) [0..<Suc i]"
    using assms by (metis Suc_leI map_nth take_map take_upt add_0)
  then show ?thesis
    by (simp add: window_at_def drop_map del: upt_Suc)
qed

lemma foldl_fadd_Fin: "foldl fadd (Fin a) (map Fin ys) = Fin (a + sum_list ys)"
  by (induction ys arbitrary: a) (simp_all add: add.assoc)

lemma fsum_Fin: "fsum (map Fin ys) = Fin (sum_list ys)"
  by (simp add: fsum_def foldl_fadd_Fin)

lemma mean_obs_Fin:
  "mean_obs m (map Fin ys) =
     (if length ys < m \<or> ys = [] then NaN else Fin (sum_list ys / real (length ys)))"
proof -
  have "filter (\<lambda>x. \<not> isna x) (map Fin ys) = map Fin ys"
    by (induction ys) (simp_all add: isna_def)
  then show ?thesis
    by (simp add: mean_obs_def fsum_Fin)
qed

lemma rolling_mean_Fin:
  assumes "i < length xs" and "\<And>j. j < length xs \<Longrightarrow> xs ! j = Fin (f j)"
  shows "rolling_mean n n xs ! i =
     (if n = 0 \<or> Suc i < n then NaN else Fin (sma n f i))"
proof -
  have w: "window_at n xs i = map Fin (map f [Suc i - n..<Suc i])"
    using assms by (simp add: window_at_nth del: upt_Suc)
  have s: "sum_list (map f [Suc i - n..<Suc i]) = (\<Sum>j = Suc i - n..<Suc i. f j)"
    by (simp add: interv_sum_list_conv_sum_set_nat del: upt_Suc)
  have "rolling_mean n n xs ! i = mean_obs n (window_at n xs i)"
    using assms(1) by (simp add: rolling_mean_def)
  also have "\<dots> = (if n = 0 \<or> Suc i < n then NaN else Fin (sma n f i))"
    unfolding w mean_obs_Fin s sma_def by (auto simp del: upt_Suc)
  finally show ?thesis .
qed

lemma length_rolling_mean [simp]: "length (rolling_mean n m xs) = length xs"
  by (simp add: rolling_mean_def)

lemma length_init [simp]: "length (RSIMeanReversion_init n close) = length close"
  by (simp add: RSIMeanReversion_init_def rs_of_def avg_gain_of_def avg_loss_of_def)

lemma nth_avg_gain_of:
  "i < length close \<Longrightarrow>
   avg_gain_of n close ! i =
     (if n = 0 \<or> Suc i < n then NaN else Fin (sma n (gain_at close) i))"
  unfolding avg_gain_of_def by (rule rolling_mean_Fin) (simp_all add: nth_gain_of)

lemma nth_avg_loss_of:
  "i < length close \<Longrightarrow>
   avg_loss_of n close ! i =
     (if n = 0 \<or> Suc i < n then NaN else Fin (sma n (loss_at close) i))"
  unfolding avg_loss_of_def by (rule rolling_mean_Fin) (simp_all add: nth_loss_of)

lemma nth_init:
  "i < length close \<Longrightarrow>
   RSIMeanReversion_init n close ! i =
     rsi_from_rs (fdiv (avg_gain_of n close ! i) (avg_loss_of n close ! i))"
  by (simp add: RSIMeanReversion_init_def rs_of_def avg_gain_of_def avg_loss_of_def)

lemma gain_at_nonneg: "0 \<le> gain_at close j"
  by (simp add: gain_at_def)

lemma sma_nonneg: "(\<And>j. 0 \<le> f j) \<Longrightarrow> 0 \<le> sma n f i"
  by (simp add: sma_def sum_nonneg)

text \<open>
  C3. For every close series and window \<open>n\<close>, the RSI series of \<open>RSIMeanReversion.init\<close>
  is aligned with the closes; at an index with fewer than \<open>n\<close> observations it is
  not-a-number; from there on it is \<open>100 - 100 / (1 + RS)\<close> with \<open>RS\<close> the quotient of
  the simple means of the last \<open>n\<close> gains and of the last \<open>n\<close> losses, in the arithmetic
  of the arrays, and in plain real arithmetic wherever the mean loss is positive.
\<close>

theorem rsi_is_simple_rolling_mean_rsi:
  assumes "i < length close"
  shows "length (RSIMeanReversion_init n close) = length close
    \<and> RSIMeanReversion_init n close ! i =
       (if Suc i < n then NaN
        else fsub (Fin 100) (fdiv (Fin 100) (fadd (Fin 1)
               (fdiv (Fin (sma n (gain_at close) i)) (Fin (sma n (loss_at close) i))))))
    \<and> (\<not> Suc i < n \<and> 0 < sma n (loss_at close) i \<longrightarrow>
         RSIMeanReversion_init n close ! i =
           Fin (100 - 100 / (1 + sma n (gain_at close) i / sma n (loss_at close) i)))"
proof -
  have g: "0 \<le> sma n (gain_at close) i" by (rule sma_nonneg) (rule gain_at_nonneg)
  have z: "sma 0 f i = 0" for f by (simp add: sma_def)
  have a: "RSIMeanReversion_init n close ! i =
       (if Suc i < n then NaN
        else fsub (Fin 100) (fdiv (Fin 100) (fadd (Fin 1)
               (fdiv (Fin (sma n (gain_at close) i)) (Fin (sma n (loss_at close) i))))))"
    using assms
    by (auto simp add: nth_init nth_avg_gain_of nth_avg_loss_of rsi_from_rs_def fsub_def z)
  have b: "RSIMeanReversion_init n close ! i =
           Fin (100 - 100 / (1 + sma n (gain_at close) i / sma n (loss_at close) i))"
    if "\<not> Suc i < n" "0 < sma n (loss_at close) i"
  proof -
    have "0 \<le> sma n (gain_at close) i / sma n (loss_at close) i"
      using g that(2) by simp
    then have "1 + sma n (gain_at close) i / sma n (loss_at close) i \<noteq> 0" by linarith
    then show ?thesis using that by (simp add: a fsub_def)
  qed
  show ?thesis using a b by simp
qed


text \<open>
  Witness for C3: window 2 on the closes 1, 2, 3, 2, 2, 2 gives mean gain and mean loss
  1/2 at index 3, hence 50; window 5 has too few observations there.
\<close>

theorem rsi_is_simple_rolling_mean_rsi_witness:
  "RSIMeanReversion_init 2 [1, 2, 3, 2, 2, 2] ! 3 = Fin 50
   \<and> RSIMeanReversion_init 5 [1, 2, 3, 2, 2, 2] ! 3 = NaN"
proof -
  have h: "3 < length [1, 2, 3, 2, 2, 2 :: real]" by simp
  have g: "sma 2 (gain_at [1, 2, 3, 2, 2, 2]) 3 = 1 / 2"
    by (simp add: sma_def gain_at_def eval_nat_numeral sum.atLeast_Suc_lessThan)
  have l: "sma 2 (loss_at [1, 2, 3, 2, 2, 2]) 3 = 1 / 2"
    by (simp add: sma_def loss_at_def eval_nat_numeral sum.atLeast_Suc_lessThan)
  from rsi_is_simple_rolling_mean_rsi [OF h, of 2]
  have "RSIMeanReversion_init 2 [1, 2, 3, 2, 2, 2] ! 3 = Fin 50"
    by (simp add: g l fsub_def)
  moreover from rsi_is_simple_rolling_mean_rsi [OF h, of 5]
  have "RSIMeanReversion_init 5 [1, 2, 3, 2, 2, 2] ! 3 = NaN"
    by simp
  ultimately show ?thesis by simp
qed

text \<open>
  C4. At every index where the rolling mean loss is zero and the rolling mean gain is
  positive, the RSI is the number 100: the division by zero yields an infinity, which
  the rest of the formula turns into 100; nothing is raised and no not-a-number appears.
\<close>

theorem rsi_zero_loss_is_100:
  assumes "i < length close"
    and "avg_loss_of n close ! i = Fin 0"
    and "fgt (avg_gain_of n close ! i) (Fin 0)"
  shows "RSIMeanReversion_init n close ! i = Fin 100"
proof -
  from assms(3) have "fdiv (avg_gain_of n close ! i) (Fin 0) = PInf"
    by (cases "avg_gain_of n close ! i") (simp_all add: fgt_def)
  with assms(1,2) show ?thesis
    by (simp add: nth_init rsi_from_rs_def fsub_def)
qed

text \<open>Witness for C4: the rising closes 1, 2, 3 with window 2, at the last index.\<close>

theorem rsi_zero_loss_is_100_witness:
  "avg_loss_of 2 [1, 2, 3] ! 2 = Fin 0 \<and> fgt (avg_gain_of 2 [1, 2, 3] ! 2) (Fin 0)
   \<and> RSIMeanReversion_init 2 [1, 2, 3] ! 2 = Fin 100"
proof -
  have h: "2 < length [1, 2, 3 :: real]" by simp
  have l: "avg_loss_of 2 [1, 2, 3] ! 2 = Fin 0" by code_simp
  have g: "fgt (avg_gain_of 2 [1, 2, 3] ! 2) (Fin 0)" by code_simp
  from rsi_zero_loss_is_100 [OF h l g] l g show ?thesis by simp
qed

section \<open>One position at a time\<close>

lemma next_positioned:
  "rsi_seen \<noteq> [] \<Longrightarrow>
   \<exists>a. RSIMeanReversion_next p pos rsi_seen = Inr a \<and> (pos \<noteq> Flat \<longrightarrow> \<not> is_entry a)"
  by (simp add: RSIMeanReversion_next_def last_of_def is_entry_def)

lemma apply_action_positioned:
  "pos \<noteq> Flat \<Longrightarrow> apply_action pos a = pos \<or> apply_action pos a = Flat"
  by (cases pos; cases a) simp_all

text \<open>
  Each decision keeps the books: what it opens or closes is what the order manager's
  state gains or loses.
\<close>

lemma next_balance:
  assumes "RSIMeanReversion_next p pos h = Inr a"
  shows "open_count pos + (if is_entry a then 1 else 0) =
         open_count (apply_action pos a) + (if a = ClosePosition then 1 else 0)"
proof (cases pos)
  case Flat
  with assms show ?thesis
    by (auto simp add: RSIMeanReversion_next_def last_of_def is_entry_def open_count_def
        split: if_splits)
next
  case Long
  with assms show ?thesis
    by (auto simp add: RSIMeanReversion_next_def last_of_def is_entry_def open_count_def
        is_long_def is_short_def split: if_splits)
next
  case Short
  with assms show ?thesis
    by (auto simp add: RSIMeanReversion_next_def last_of_def is_entry_def open_count_def
        is_long_def is_short_def split: if_splits)
qed

lemma run_bars_ok:
  "\<exists>steps. run_bars p pos seen rest = Inr steps \<and> (\<forall>s \<in> set steps. step_ok s)"
proof (induction rest arbitrary: pos seen)
  case Nil
  show ?case by simp
next
  case (Cons r rest)
  obtain a where a: "RSIMeanReversion_next p pos (seen @ [r]) = Inr a"
    and e: "pos \<noteq> Flat \<longrightarrow> \<not> is_entry a"
    using next_positioned [of "seen @ [r]" p pos] by auto
  obtain steps where s: "run_bars p (apply_action pos a) (seen @ [r]) rest = Inr steps"
    and ok: "\<forall>s \<in> set steps. step_ok s"
    using Cons.IH by blast
  have "step_ok \<lparr>bar_index = length seen, pos_before = pos, act = a,
                 pos_after = apply_action pos a\<rparr>"
    using e apply_action_positioned [of pos a] by (simp add: step_ok_def)
  with a s ok show ?case by simp
qed

lemma entries_placed_Cons:
  "entries_placed (s # steps) = (if is_entry (act s) then 1 else 0) + entries_placed steps"
  by (simp add: entries_placed_def)

lemma closes_placed_Cons:
  "closes_placed (s # steps) = (if act s = ClosePosition then 1 else 0) + closes_placed steps"
  by (simp add: closes_placed_def)

text \<open>
  The invariant of the loop, from any starting position: after \<open>k\<close> bars the positions
  open at the start plus the entries placed equal the closes placed plus the positions
  open now; and the position a step sees is the one the step before left.
\<close>

lemma run_bars_balance:
  assumes "run_bars p pos seen rest = Inr steps" and "k \<le> length steps"
  shows "open_count pos + entries_placed (take k steps) =
         closes_placed (take k steps)
           + open_count (if k = 0 then pos else pos_after (steps ! (k - 1)))"
  using assms
proof (induction rest arbitrary: pos seen steps k)
  case Nil
  then show ?case by (simp add: entries_placed_def closes_placed_def)
next
  case (Cons r rest)
  from Cons.prems(1) obtain a steps' where a: "RSIMeanReversion_next p pos (seen @ [r]) = Inr a"
    and r: "run_bars p (apply_action pos a) (seen @ [r]) rest = Inr steps'"
    and s: "steps = \<lparr>bar_index = length seen, pos_before = pos, act = a,
                     pos_after = apply_action pos a\<rparr> # steps'"
    by (auto split: sum.splits)
  show ?case
  proof (cases k)
    case 0
    then show ?thesis by (simp add: entries_placed_def closes_placed_def)
  next
    case (Suc j)
    with Cons.prems(2) s have j: "j \<le> length steps'" by simp
    have p: "(if j = 0 then apply_action pos a else pos_after (steps' ! (j - 1)))
             = pos_after (steps ! j)"
      by (cases j) (simp_all add: s)
    from Cons.IH [OF r j] next_balance [OF a] show ?thesis
      unfolding p by (simp add: Suc s entries_placed_Cons closes_placed_Cons)
  qed
qed

lemma run_bars_chain:
  assumes "run_bars p pos seen rest = Inr steps" and "k < length steps"
  shows "pos_before (steps ! k) = (if k = 0 then pos else pos_after (steps ! (k - 1)))"
  using assms
proof (induction rest arbitrary: pos seen steps k)
  case Nil
  then show ?case by simp
next
  case (Cons r rest)
  from Cons.prems(1) obtain a steps' where
    r: "run_bars p (apply_action pos a) (seen @ [r]) rest = Inr steps'"
    and s: "steps = \<lparr>bar_index = length seen, pos_before = pos, act = a,
                     pos_after = apply_action pos a\<rparr> # steps'"
    by (auto split: sum.splits)
  show ?case
  proof (cases k)
    case 0
    then show ?thesis by (simp add: s)
  next
    case (Suc j)
    with Cons.prems(2) s have j: "j < length steps'" by simp
    from Cons.IH [OF r j] show ?thesis
      by (cases j) (simp_all add: Suc s)
  qed
qed

text \<open>
  C1. In a run of the RSI mean-reversion backtest over a non-empty series no decision
  step fails, and at every simulated time at most one position is open: after any number
  of bars the entries placed so far are either all closed again or exceed the closes by
  one, and the position is flat exactly in the first case. While a position is open the
  decision step places no entry order (neither buy nor sell), whatever the RSI says, so
  that the position after the bar is the same one or flat: it is never reversed and
  never added to.
\<close>

theorem one_position_entries_ignored:
  assumes "close \<noteq> []"
  shows "\<exists>steps. run_backtest p close = Inr steps
     \<and> (\<forall>k \<le> length steps.
          entries_placed (take k steps) = closes_placed (take k steps)
          \<or> entries_placed (take k steps) = Suc (closes_placed (take k steps)))
     \<and> (\<forall>k < length steps.
          (pos_before (steps ! k) = Flat)
            = (entries_placed (take k steps) = closes_placed (take k steps)))
     \<and> (\<forall>s \<in> set steps.
          pos_before s \<noteq> Flat \<longrightarrow>
            \<not> is_entry (act s) \<and> (pos_after s = pos_before s \<or> pos_after s = Flat))"
proof -
  define rsi where "rsi = RSIMeanReversion_init (rsi_period p) close"
  obtain steps where r: "run_bars p Flat (take (warm_up rsi) rsi) (drop (warm_up rsi) rsi)
      = Inr steps"
    and ok: "\<forall>s \<in> set steps. step_ok s"
    using run_bars_ok by blast
  have b: "entries_placed (take k steps) =
      closes_placed (take k steps)
        + open_count (if k = 0 then Flat else pos_after (steps ! (k - 1)))"
    if "k \<le> length steps" for k
    using run_bars_balance [OF r that] by (simp add: open_count_def)
  have c: "pos_before (steps ! k) = (if k = 0 then Flat else pos_after (steps ! (k - 1)))"
    if "k < length steps" for k
    using run_bars_chain [OF r that] .
  have 1: "entries_placed (take k steps) = closes_placed (take k steps)
          \<or> entries_placed (take k steps) = Suc (closes_placed (take k steps))"
    if "k \<le> length steps" for k
    using b [OF that] by (simp add: open_count_def)
  have 2: "(pos_before (steps ! k) = Flat)
            = (entries_placed (take k steps) = closes_placed (take k steps))"
    if "k < length steps" for k
    using b [of k] c [OF that] that by (simp add: open_count_def)
  from r have "run_backtest p close = Inr steps"
    by (simp add: run_backtest_def rsi_def Let_def)
  with 1 2 ok show ?thesis
    by (auto simp add: step_ok_def)
qed

lemma example_run:
  "run_backtest (RSIMeanReversion_defaults\<lparr>rsi_period := 2\<rparr>) [10, 9, 8, 7, 6] =
    Inr [\<lparr>bar_index = 2, pos_before = Flat, act = Buy None, pos_after = Long\<rparr>,
         \<lparr>bar_index = 3, pos_before = Long, act = NoAction, pos_after = Long\<rparr>,
         \<lparr>bar_index = 4, pos_before = Long, act = NoAction, pos_after = Long\<rparr>]"
  by code_simp

text \<open>
  Witness for C1: with window 2 on the falling closes 10, 9, 8, 7, 6 the RSI is undefined
  at the first bar and 0 from the second on, so the first decision is taken at the third
  bar (index 2): a buy. At the next bar the strategy is long and the RSI is still 0,
  below the oversold threshold: no order is placed, and one position is open.
\<close>

theorem one_position_entries_ignored_witness:
  "\<exists>steps. run_backtest (RSIMeanReversion_defaults\<lparr>rsi_period := 2\<rparr>) [10, 9, 8, 7, 6]
       = Inr steps
     \<and> bar_index (steps ! 1) = 3 \<and> pos_before (steps ! 1) = Long
     \<and> act (steps ! 1) = NoAction \<and> \<not> is_entry (act (steps ! 1))
     \<and> pos_after (steps ! 1) = Long
     \<and> entries_placed (take 1 steps) = Suc (closes_placed (take 1 steps))"
proof -
  let ?p = "RSIMeanReversion_defaults\<lparr>rsi_period := 2\<rparr>"
  let ?c = "[10, 9, 8, 7, 6] :: real list"
  obtain steps where r: "run_backtest ?p ?c = Inr steps"
    and bal: "\<forall>k \<le> length steps.
          entries_placed (take k steps) = closes_placed (take k steps)
          \<or> entries_placed (take k steps) = Suc (closes_placed (take k steps))"
    and flat: "\<forall>k < length steps.
          (pos_before (steps ! k) = Flat)
            = (entries_placed (take k steps) = closes_placed (take k steps))"
    and ok: "\<forall>s \<in> set steps.
          pos_before s \<noteq> Flat \<longrightarrow>
            \<not> is_entry (act s) \<and> (pos_after s = pos_before s \<or> pos_after s = Flat)"
    using one_position_entries_ignored [of ?c ?p] by blast
  from r have e: "steps =
        [\<lparr>bar_index = 2, pos_before = Flat, act = Buy None, pos_after = Long\<rparr>,
         \<lparr>bar_index = 3, pos_before = Long, act = NoAction, pos_after = Long\<rparr>,
         \<lparr>bar_index = 4, pos_before = Long, act = NoAction, pos_after = Long\<rparr>]"
    by (simp add: example_run)
  then have c: "steps ! 1 =
      \<lparr>bar_index = 3, pos_before = Long, act = NoAction, pos_after = Long\<rparr>"
    by simp
  have l: "(1::nat) < length steps" and m: "steps ! 1 \<in> set steps" using e by simp_all
  have n: "pos_before (steps ! 1) \<noteq> Flat" using c by simp
  with ok m have 1: "\<not> is_entry (act (steps ! 1))" by blast
  from flat l n have "entries_placed (take 1 steps) \<noteq> closes_placed (take 1 steps)"
    by blast
  moreover from bal l have "entries_placed (take 1 steps) = closes_placed (take 1 steps)
          \<or> entries_placed (take 1 steps) = Suc (closes_placed (take 1 steps))"
    by (metis less_imp_le_nat)
  ultimately have 2: "entries_placed (take 1 steps) = Suc (closes_placed (take 1 steps))"
    by blast
  from r c 1 2 show ?thesis by auto
qed

section \<open>The MACD crossover decision\<close>

lemma flt_asym: "flt a b \<Longrightarrow> \<not> flt b a"
  by (cases a; cases b) simp_all

lemma flt_NaN_right [simp]: "\<not> flt a NaN"
  by (cases a) simp_all

lemma nth_back_take_1:
  assumes "j < length xs"
  shows "nth_back (take (Suc j) xs) (Suc 0) = xs ! j"
proof -
  have "length (take (Suc j) xs) = Suc j" using assms by simp
  then show ?thesis by (simp add: nth_back_def)
qed

lemma nth_back_take_2:
  assumes "Suc j < length xs"
  shows "nth_back (take (Suc (Suc j)) xs) 2 = xs ! j"
proof -
  have "length (take (Suc (Suc j)) xs) = Suc (Suc j)" using assms by simp
  then show ?thesis by (simp add: nth_back_def eval_nat_numeral)
qed

lemma next_eq_cross_decision:
  "2 \<le> length m \<Longrightarrow> 2 \<le> length s \<Longrightarrow>
   MACDCrossover_next pos m s =
     cross_decision pos (nth_back m 2, nth_back s 2) (nth_back m 1, nth_back s 1)"
  by (simp add: MACDCrossover_next_def cross_decision_def is_long_def is_short_def)

lemma single_cross_pointwise:
  assumes len: "length ss = length ms"
    and k: "0 < k" "k < length ms"
    and above: "\<And>j. j < k \<Longrightarrow> fgt (ms ! j) (ss ! j)"
    and below: "\<And>j. k \<le> j \<Longrightarrow> j < length ms \<Longrightarrow> flt (ms ! j) (ss ! j)"
    and j: "j < length ms"
  shows "MACDCrossover_next Long (take (Suc j) ms) (take (Suc j) ss) =
         (if j = k then ClosePosition else NoAction)"
proof (cases j)
  case 0
  with k show ?thesis by (simp add: MACDCrossover_next_def)
next
  case (Suc i)
  have i: "Suc i < length ms" using j Suc by simp
  have l: "2 \<le> length (take (Suc j) ms)" "2 \<le> length (take (Suc j) ss)"
    using j Suc len by simp_all
  have e: "MACDCrossover_next Long (take (Suc j) ms) (take (Suc j) ss) =
      cross_decision Long (ms ! i, ss ! i) (ms ! j, ss ! j)"
    using next_eq_cross_decision [OF l, of Long] i j len
    by (simp add: Suc nth_back_take_1 nth_back_take_2)
  consider "j < k" | "j = k" | "k < j" by linarith
  then show ?thesis
  proof cases
    case 1
    then have "\<not> flt (ms ! j) (ss ! j)"
      using above [of j] flt_asym by (auto simp add: fgt_def)
    with 1 show ?thesis unfolding e by (simp add: cross_decision_def)
  next
    case 2
    then have "fgt (ms ! i) (ss ! i)" "flt (ms ! j) (ss ! j)"
      using above [of i] below [of j] Suc j by simp_all
    with 2 show ?thesis unfolding e by (simp add: cross_decision_def)
  next
    case 3
    then have "flt (ms ! i) (ss ! i)" using below [of i] Suc i by simp
    then have "\<not> fgt (ms ! i) (ss ! i)" using flt_asym by (auto simp add: fgt_def)
    with 3 show ?thesis unfolding e by (simp add: cross_decision_def)
  qed
qed

lemma filter_eq_upt: "filter (\<lambda>j. j = k) [0..<n] = (if k < n then [k] else [])"
  by (induction n) auto

lemma single_cross_decisions:
  assumes len: "length ss = length ms"
    and k: "0 < k" "k < length ms"
    and above: "\<And>j. j < k \<Longrightarrow> fgt (ms ! j) (ss ! j)"
    and below: "\<And>j. k \<le> j \<Longrightarrow> j < length ms \<Longrightarrow> flt (ms ! j) (ss ! j)"
  shows "decisions_while Long ms ss =
         map (\<lambda>j. if j = k then ClosePosition else NoAction) [0..<length ms]"
  unfolding decisions_while_def
  by (rule map_cong [OF refl]) (use assms in \<open>simp add: single_cross_pointwise\<close>)

text \<open>
  C6. The MACD decision step does nothing while either line has fewer than two values;
  otherwise its action is a function of the position and of the two pairs (MACD, signal)
  at the previous and at the current bar alone. Consequently, over bars where the MACD is
  above the signal up to bar \<open>k - 1\<close> and below it from bar \<open>k\<close> on, the decisions taken
  while long contain exactly one close, the one at bar \<open>k\<close>.
\<close>

theorem macd_crossover_prior_pair:
  "(length m < 2 \<or> length s < 2 \<longrightarrow> MACDCrossover_next pos m s = NoAction)
   \<and> (2 \<le> length m \<and> 2 \<le> length s \<longrightarrow>
        MACDCrossover_next pos m s =
          cross_decision pos (nth_back m 2, nth_back s 2) (nth_back m 1, nth_back s 1))
   \<and> (length ss = length ms \<and> 0 < k \<and> k < length ms
        \<and> (\<forall>j. j < k \<longrightarrow> fgt (ms ! j) (ss ! j))
        \<and> (\<forall>j. k \<le> j \<and> j < length ms \<longrightarrow> flt (ms ! j) (ss ! j)) \<longrightarrow>
        length (filter (\<lambda>a. a = ClosePosition) (decisions_while Long ms ss)) = 1
        \<and> decisions_while Long ms ss ! k = ClosePosition)"
proof (intro conjI impI)
  assume "length m < 2 \<or> length s < 2"
  then show "MACDCrossover_next pos m s = NoAction"
    by (auto simp add: MACDCrossover_next_def)
next
  assume "2 \<le> length m \<and> 2 \<le> length s"
  then show "MACDCrossover_next pos m s =
          cross_decision pos (nth_back m 2, nth_back s 2) (nth_back m 1, nth_back s 1)"
    by (simp add: next_eq_cross_decision)
next
  assume h: "length ss = length ms \<and> 0 < k \<and> k < length ms
        \<and> (\<forall>j. j < k \<longrightarrow> fgt (ms ! j) (ss ! j))
        \<and> (\<forall>j. k \<le> j \<and> j < length ms \<longrightarrow> flt (ms ! j) (ss ! j))"
  then have d: "decisions_while Long ms ss =
         map (\<lambda>j. if j = k then ClosePosition else NoAction) [0..<length ms]"
    by (intro single_cross_decisions) simp_all
  have "filter (\<lambda>a. a = ClosePosition)
          (map (\<lambda>j. if j = k then ClosePosition else NoAction) [0..<length ms])
        = map (\<lambda>j. if j = k then ClosePosition else NoAction)
            (filter (\<lambda>j. j = k) [0..<length ms])"
    by (simp add: filter_map comp_def del: upt_Suc cong: filter_cong)
  with h show "length (filter (\<lambda>a. a = ClosePosition) (decisions_while Long ms ss)) = 1"
    by (simp add: d filter_eq_upt del: upt_Suc)
  from h show "decisions_while Long ms ss ! k = ClosePosition"
    by (simp add: d del: upt_Suc)
qed

text \<open>
  Witness for C6: one value per line gives no action; the lines 2, 2, 0, 0 against
  1, 1, 1, 1 cross downwards at bar 2, and the four decisions taken while long hold one
  close, at bar 2.
\<close>

theorem macd_crossover_prior_pair_witness:
  "MACDCrossover_next Long [Fin 2] [Fin 1] = NoAction
   \<and> MACDCrossover_next Long [Fin 2, Fin 2, Fin 0] [Fin 1, Fin 1, Fin 1] =
       cross_decision Long (Fin 2, Fin 1) (Fin 0, Fin 1)
   \<and> length (filter (\<lambda>a. a = ClosePosition)
       (decisions_while Long [Fin 2, Fin 2, Fin 0, Fin 0] [Fin 1, Fin 1, Fin 1, Fin 1])) = 1
   \<and> decisions_while Long [Fin 2, Fin 2, Fin 0, Fin 0] [Fin 1, Fin 1, Fin 1, Fin 1] ! 2
       = ClosePosition"
proof -
  let ?ms = "[Fin 2, Fin 2, Fin 0, Fin 0]"
  let ?ss = "[Fin 1, Fin 1, Fin 1, Fin 1]"
  have a: "\<forall>j. j < 2 \<longrightarrow> fgt (?ms ! j) (?ss ! j)"
    by (simp add: fgt_def less_Suc_eq eval_nat_numeral)
  have b: "\<forall>j. 2 \<le> j \<and> j < length ?ms \<longrightarrow> flt (?ms ! j) (?ss ! j)"
    by (auto simp add: less_Suc_eq eval_nat_numeral)
  have h: "length ?ss = length ?ms \<and> 0 < (2::nat) \<and> 2 < length ?ms
        \<and> (\<forall>j. j < 2 \<longrightarrow> fgt (?ms ! j) (?ss ! j))
        \<and> (\<forall>j. 2 \<le> j \<and> j < length ?ms \<longrightarrow> flt (?ms ! j) (?ss ! j))"
    using a b by simp
  have 1: "MACDCrossover_next Long [Fin 2] [Fin 1] = NoAction"
    using macd_crossover_prior_pair [of "[Fin 2]" "[Fin 1]" Long] by simp
  have 2: "MACDCrossover_next Long [Fin 2, Fin 2, Fin 0] [Fin 1, Fin 1, Fin 1] =
       cross_decision Long (Fin 2, Fin 1) (Fin 0, Fin 1)"
    using macd_crossover_prior_pair
      [of "[Fin 2, Fin 2, Fin 0]" "[Fin 1, Fin 1, Fin 1]" Long]
    by (simp add: nth_back_def)
  have 3: "length (filter (\<lambda>a. a = ClosePosition) (decisions_while Long ?ms ?ss)) = 1
        \<and> decisions_while Long ?ms ?ss ! 2 = ClosePosition"
    using macd_crossover_prior_pair [of _ _ _ ?ss ?ms 2] h by blast
  from 1 2 3 show ?thesis by simp
qed


section \<open>The trend-filtered RSI decision\<close>

lemma tf_next_ready:
  assumes "tf_ready p s"
  shows "TrendFilteredRSI_next p s =
    (if self_position s = Flat then
       (if fgt (Fin (last (self_data_Close s))) (last (self_ema_long s))
           \<and> flt (last (self_rsi s)) (Fin (oversold p)) then
          (if flt (long_stop p s) (Fin (last (self_data_Close s)))
           then Inr (Buy (Some (long_stop p s)), [])
           else Inr (NoAction, [IllogicalSLBuy (long_stop p s) (last (self_data_Close s))]))
        else if flt (Fin (last (self_data_Close s))) (last (self_ema_long s))
           \<and> fgt (last (self_rsi s)) (Fin (overbought p)) then
          (if fgt (short_stop p s) (Fin (last (self_data_Close s)))
           then Inr (Sell (Some (short_stop p s)), [])
           else Inr (NoAction, [IllogicalSLSell (short_stop p s) (last (self_data_Close s))]))
        else Inr (NoAction, []))
     else
       (if is_long (self_position s)
           \<and> crossover (last_two (self_rsi s)) (level (exit_level p))
        then Inr (ClosePosition, [])
        else if is_short (self_position s)
           \<and> crossover (level (exit_level p)) (last_two (self_rsi s))
        then Inr (ClosePosition, [])
        else Inr (NoAction, [])))"
  using assms
  by (simp add: TrendFilteredRSI_next_def tf_ready_def last_of_def Let_def long_stop_def
      short_stop_def)

lemma tf_next_not_ready:
  assumes "\<not> tf_ready p s" and "TrendFilteredRSI_next p s = Inr (a, d)"
  shows "a = NoAction \<and> d = []"
  using assms
  by (auto simp add: TrendFilteredRSI_next_def tf_ready_def last_of_def Let_def
      split: if_splits)

text \<open>
  The strategy parameters and the view used in the examples below: all three windows
  set to 1, a close of 10 above a trend EMA of 9, an RSI of 20, an ATR of 1.
\<close>

lemma tf_example_buy:
  "TrendFilteredRSI_next
     (TrendFilteredRSI_defaults\<lparr>rsi_period := 1, ema_period := 1, atr_period := 1\<rparr>)
     \<lparr>self_data_Close = [10], self_rsi = [Fin 20], self_ema_long = [Fin 9],
      self_atr = [Fin 1], self_position = Flat\<rparr>
   = Inr (Buy (Some (Fin 8)), [])"
  by (simp add: TrendFilteredRSI_next_def TrendFilteredRSI_defaults_def last_of_def isna_def
      fle_def fgt_def fsub_def)

text \<open>
  With a positive multiplier, once the guards have passed (the ATR is then positive), the
  long stop lies below the price and the short stop above it.
\<close>

lemma tf_stops_protective:
  assumes "tf_ready p s" and "0 < stop_loss_atr_multiplier p"
  shows "flt (long_stop p s) (Fin (last (self_data_Close s)))
       \<and> fgt (short_stop p s) (Fin (last (self_data_Close s)))"
proof (cases "last (self_atr s)")
  case (Fin a)
  with assms(1) have "0 < a" by (auto simp add: tf_ready_def fle_def)
  with assms(2) have "0 < stop_loss_atr_multiplier p * a" by simp
  with Fin show ?thesis by (simp add: long_stop_def short_stop_def fsub_def fgt_def)
next
  case PInf
  with assms(2) show ?thesis by (simp add: long_stop_def short_stop_def fsub_def fgt_def)
next
  case NInf
  with assms(1) show ?thesis by (simp add: tf_ready_def fle_def)
next
  case NaN
  with assms(1) show ?thesis by (simp add: tf_ready_def isna_def)
qed

text \<open>
  C7. At every bar at which the trend-filtered RSI strategy is flat, the decision step
  places a buy exactly when its guards have passed, the price is above the trend EMA, the
  RSI is below the oversold threshold and the stop, price minus multiplier times ATR, is
  below the price; the buy carries that stop. It places a sell exactly when the guards
  have passed, the price is below the EMA, the RSI is above the overbought threshold and
  the stop, price plus multiplier times ATR, is above the price; the sell carries that
  stop. It never places a close. With a positive multiplier both stops are on the
  protective side whenever the guards have passed, and the multiplier is 2 by default: so
  the strategy then enters in exactly the two states named and in no other.
\<close>

theorem tf_flat_entries:
  assumes "self_position s = Flat"
  shows "((TrendFilteredRSI_next p s = Inr (Buy sl, d)) =
          (tf_ready p s
           \<and> fgt (Fin (last (self_data_Close s))) (last (self_ema_long s))
           \<and> flt (last (self_rsi s)) (Fin (oversold p))
           \<and> flt (fsub (Fin (last (self_data_Close s)))
                    (fmul (Fin (stop_loss_atr_multiplier p)) (last (self_atr s))))
                 (Fin (last (self_data_Close s)))
           \<and> sl = Some (fsub (Fin (last (self_data_Close s)))
                         (fmul (Fin (stop_loss_atr_multiplier p)) (last (self_atr s))))
           \<and> d = []))
    \<and> ((TrendFilteredRSI_next p s = Inr (Sell sl, d)) =
          (tf_ready p s
           \<and> flt (Fin (last (self_data_Close s))) (last (self_ema_long s))
           \<and> fgt (last (self_rsi s)) (Fin (overbought p))
           \<and> fgt (fadd (Fin (last (self_data_Close s)))
                    (fmul (Fin (stop_loss_atr_multiplier p)) (last (self_atr s))))
                 (Fin (last (self_data_Close s)))
           \<and> sl = Some (fadd (Fin (last (self_data_Close s)))
                         (fmul (Fin (stop_loss_atr_multiplier p)) (last (self_atr s))))
           \<and> d = []))
    \<and> TrendFilteredRSI_next p s \<noteq> Inr (ClosePosition, d)
    \<and> (tf_ready p s \<and> 0 < stop_loss_atr_multiplier p \<longrightarrow>
          flt (fsub (Fin (last (self_data_Close s)))
                 (fmul (Fin (stop_loss_atr_multiplier p)) (last (self_atr s))))
              (Fin (last (self_data_Close s)))
          \<and> fgt (fadd (Fin (last (self_data_Close s)))
                 (fmul (Fin (stop_loss_atr_multiplier p)) (last (self_atr s))))
              (Fin (last (self_data_Close s))))
    \<and> stop_loss_atr_multiplier TrendFilteredRSI_defaults = 2"
proof -
  have x: "\<not> fgt a b" if "flt a b" for a b
    using that by (cases a; cases b) (simp_all add: fgt_def)
  have prot: "tf_ready p s \<and> 0 < stop_loss_atr_multiplier p \<longrightarrow>
          flt (long_stop p s) (Fin (last (self_data_Close s)))
          \<and> fgt (short_stop p s) (Fin (last (self_data_Close s)))"
    using tf_stops_protective by blast
  show ?thesis
  proof (cases "tf_ready p s")
    case True
    have "(TrendFilteredRSI_next p s = Inr (Buy sl, d)) =
          (fgt (Fin (last (self_data_Close s))) (last (self_ema_long s))
           \<and> flt (last (self_rsi s)) (Fin (oversold p))
           \<and> flt (long_stop p s) (Fin (last (self_data_Close s)))
           \<and> sl = Some (long_stop p s) \<and> d = [])"
      unfolding tf_next_ready [OF True] by (auto simp add: assms)
    moreover have "(TrendFilteredRSI_next p s = Inr (Sell sl, d)) =
          (flt (Fin (last (self_data_Close s))) (last (self_ema_long s))
           \<and> fgt (last (self_rsi s)) (Fin (overbought p))
           \<and> fgt (short_stop p s) (Fin (last (self_data_Close s)))
           \<and> sl = Some (short_stop p s) \<and> d = [])"
      unfolding tf_next_ready [OF True] using x by (auto simp add: assms)
    moreover have "TrendFilteredRSI_next p s \<noteq> Inr (ClosePosition, d)"
      unfolding tf_next_ready [OF True] by (simp add: assms)
    ultimately show ?thesis
      using True prot
      by (simp add: long_stop_def short_stop_def TrendFilteredRSI_defaults_def)
  next
    case False
    have "a = NoAction" if "TrendFilteredRSI_next p s = Inr (a, e)" for a e
      using tf_next_not_ready [OF False that] by simp
    then have "TrendFilteredRSI_next p s \<noteq> Inr (Buy sl, d)"
      and "TrendFilteredRSI_next p s \<noteq> Inr (Sell sl, d)"
      and "TrendFilteredRSI_next p s \<noteq> Inr (ClosePosition, d)"
      by fastforce+
    with False show ?thesis
      by (simp add: TrendFilteredRSI_defaults_def)
  qed
qed

text \<open>
  Witness for C7, with all three windows set to 1 and the default multiplier 2: the close
  10 above the EMA 9 with the RSI 20 gives a buy with the stop at 10 - 2 * 1 = 8; the
  close 10 below the EMA 11 with the RSI 80 gives a sell with the stop at 10 + 2 * 1 =
  12; the close 10 above the EMA 9 with the RSI 50 gives neither.
\<close>

theorem tf_flat_entries_witness:
  "TrendFilteredRSI_next
     (TrendFilteredRSI_defaults\<lparr>rsi_period := 1, ema_period := 1, atr_period := 1\<rparr>)
     \<lparr>self_data_Close = [10], self_rsi = [Fin 20], self_ema_long = [Fin 9],
      self_atr = [Fin 1], self_position = Flat\<rparr>
     = Inr (Buy (Some (Fin 8)), [])
   \<and> TrendFilteredRSI_next
     (TrendFilteredRSI_defaults\<lparr>rsi_period := 1, ema_period := 1, atr_period := 1\<rparr>)
     \<lparr>self_data_Close = [10], self_rsi = [Fin 80], self_ema_long = [Fin 11],
      self_atr = [Fin 1], self_position = Flat\<rparr>
     = Inr (Sell (Some (Fin 12)), [])
   \<and> TrendFilteredRSI_next
     (TrendFilteredRSI_defaults\<lparr>rsi_period := 1, ema_period := 1, atr_period := 1\<rparr>)
     \<lparr>self_data_Close = [10], self_rsi = [Fin 50], self_ema_long = [Fin 9],
      self_atr = [Fin 1], self_position = Flat\<rparr>
     \<noteq> Inr (Buy (Some (Fin 8)), [])
   \<and> TrendFilteredRSI_next
     (TrendFilteredRSI_defaults\<lparr>rsi_period := 1, ema_period := 1, atr_period := 1\<rparr>)
     \<lparr>self_data_Close = [10], self_rsi = [Fin 50], self_ema_long = [Fin 9],
      self_atr = [Fin 1], self_position = Flat\<rparr>
     \<noteq> Inr (Sell (Some (Fin 12)), [])"
proof -
  let ?p = "TrendFilteredRSI_defaults\<lparr>rsi_period := 1, ema_period := 1, atr_period := 1\<rparr>"
  let ?b = "\<lparr>self_data_Close = [10], self_rsi = [Fin 20], self_ema_long = [Fin 9],
      self_atr = [Fin 1], self_position = Flat\<rparr>"
  let ?s = "\<lparr>self_data_Close = [10], self_rsi = [Fin 80], self_ema_long = [Fin 11],
      self_atr = [Fin 1], self_position = Flat\<rparr>"
  let ?n = "\<lparr>self_data_Close = [10], self_rsi = [Fin 50], self_ema_long = [Fin 9],
      self_atr = [Fin 1], self_position = Flat\<rparr>"
  have fb: "self_position ?b = Flat" and fs: "self_position ?s = Flat"
    and fn: "self_position ?n = Flat" by simp_all
  have rb: "tf_ready ?p ?b" and rs: "tf_ready ?p ?s"
    by (simp_all add: tf_ready_def TrendFilteredRSI_defaults_def isna_def fle_def)
  have hb: "fgt (Fin (last (self_data_Close ?b))) (last (self_ema_long ?b))
           \<and> flt (last (self_rsi ?b)) (Fin (oversold ?p))
           \<and> flt (fsub (Fin (last (self_data_Close ?b)))
                    (fmul (Fin (stop_loss_atr_multiplier ?p)) (last (self_atr ?b))))
                 (Fin (last (self_data_Close ?b)))
           \<and> Some (Fin 8) = Some (fsub (Fin (last (self_data_Close ?b)))
                         (fmul (Fin (stop_loss_atr_multiplier ?p)) (last (self_atr ?b))))"
    by (simp add: TrendFilteredRSI_defaults_def fgt_def fsub_def)
  have hs: "flt (Fin (last (self_data_Close ?s))) (last (self_ema_long ?s))
           \<and> fgt (last (self_rsi ?s)) (Fin (overbought ?p))
           \<and> fgt (fadd (Fin (last (self_data_Close ?s)))
                    (fmul (Fin (stop_loss_atr_multiplier ?p)) (last (self_atr ?s))))
                 (Fin (last (self_data_Close ?s)))
           \<and> Some (Fin 12) = Some (fadd (Fin (last (self_data_Close ?s)))
                         (fmul (Fin (stop_loss_atr_multiplier ?p)) (last (self_atr ?s))))"
    by (simp add: TrendFilteredRSI_defaults_def fgt_def)
  have nb: "\<not> flt (last (self_rsi ?n)) (Fin (oversold ?p))"
    and ns: "\<not> flt (Fin (last (self_data_Close ?n))) (last (self_ema_long ?n))"
    by (simp_all add: TrendFilteredRSI_defaults_def)
  from tf_flat_entries [OF fb, of ?p "Some (Fin 8)" "[]"] rb hb
  have 1: "TrendFilteredRSI_next ?p ?b = Inr (Buy (Some (Fin 8)), [])" by blast
  from tf_flat_entries [OF fs, of ?p "Some (Fin 12)" "[]"] rs hs
  have 2: "TrendFilteredRSI_next ?p ?s = Inr (Sell (Some (Fin 12)), [])" by blast
  from tf_flat_entries [OF fn, of ?p "Some (Fin 8)" "[]"] nb
  have 3: "TrendFilteredRSI_next ?p ?n \<noteq> Inr (Buy (Some (Fin 8)), [])" by blast
  from tf_flat_entries [OF fn, of ?p "Some (Fin 12)" "[]"] ns
  have 4: "TrendFilteredRSI_next ?p ?n \<noteq> Inr (Sell (Some (Fin 12)), [])" by blast
  from 1 2 3 4 show ?thesis by blast
qed

text \<open>
  C8. When the guards of the decision step have passed and the strategy is flat: an entry
  signal for a long whose computed stop is not below the price, or for a short whose
  computed stop is not above it, places no order; the step returns normally with the
  warning for that trade as its one diagnostic.
\<close>

theorem tf_illogical_stop_rejected:
  assumes "tf_ready p s" and "self_position s = Flat"
  shows "(fgt (Fin (last (self_data_Close s))) (last (self_ema_long s))
          \<and> flt (last (self_rsi s)) (Fin (oversold p))
          \<and> \<not> flt (long_stop p s) (Fin (last (self_data_Close s)))
          \<longrightarrow> TrendFilteredRSI_next p s =
                 Inr (NoAction, [IllogicalSLBuy (long_stop p s) (last (self_data_Close s))]))
    \<and> (flt (Fin (last (self_data_Close s))) (last (self_ema_long s))
          \<and> fgt (last (self_rsi s)) (Fin (overbought p))
          \<and> \<not> fgt (short_stop p s) (Fin (last (self_data_Close s)))
          \<longrightarrow> TrendFilteredRSI_next p s =
                 Inr (NoAction, [IllogicalSLSell (short_stop p s) (last (self_data_Close s))]))"
proof -
  have "\<not> fgt a b" if "flt a b" for a b
    using that by (cases a; cases b) (simp_all add: fgt_def)
  then show ?thesis
    unfolding tf_next_ready [OF assms(1)] by (auto simp add: assms(2))
qed

text \<open>
  Witness for C8: with the multiplier set to 0 both stops equal the price 10. The long
  signal (close 10 over EMA 9, RSI 20) and the short signal (close 10 under EMA 11, RSI
  80) are each answered with the warning and no order.
\<close>

theorem tf_illogical_stop_rejected_witness:
  "TrendFilteredRSI_next
     (TrendFilteredRSI_defaults\<lparr>rsi_period := 1, ema_period := 1, atr_period := 1,
        stop_loss_atr_multiplier := 0\<rparr>)
     \<lparr>self_data_Close = [10], self_rsi = [Fin 20], self_ema_long = [Fin 9],
      self_atr = [Fin 1], self_position = Flat\<rparr>
     = Inr (NoAction, [IllogicalSLBuy (Fin 10) 10])
   \<and> TrendFilteredRSI_next
     (TrendFilteredRSI_defaults\<lparr>rsi_period := 1, ema_period := 1, atr_period := 1,
        stop_loss_atr_multiplier := 0\<rparr>)
     \<lparr>self_data_Close = [10], self_rsi = [Fin 80], self_ema_long = [Fin 11],
      self_atr = [Fin 1], self_position = Flat\<rparr>
     = Inr (NoAction, [IllogicalSLSell (Fin 10) 10])"
proof -
  let ?p = "TrendFilteredRSI_defaults\<lparr>rsi_period := 1, ema_period := 1, atr_period := 1,
        stop_loss_atr_multiplier := 0\<rparr>"
  let ?s = "\<lparr>self_data_Close = [10], self_rsi = [Fin 20], self_ema_long = [Fin 9],
      self_atr = [Fin 1], self_position = Flat\<rparr>"
  let ?t = "\<lparr>self_data_Close = [10], self_rsi = [Fin 80], self_ema_long = [Fin 11],
      self_atr = [Fin 1], self_position = Flat\<rparr>"
  have rs: "tf_ready ?p ?s" and rt: "tf_ready ?p ?t"
    by (simp_all add: tf_ready_def TrendFilteredRSI_defaults_def isna_def fle_def)
  have fs: "self_position ?s = Flat" and ft: "self_position ?t = Flat" by simp_all
  have ls: "long_stop ?p ?s = Fin 10" and st: "short_stop ?p ?t = Fin 10"
    by (simp_all add: long_stop_def short_stop_def fsub_def)
  have hs: "fgt (Fin (last (self_data_Close ?s))) (last (self_ema_long ?s))
          \<and> flt (last (self_rsi ?s)) (Fin (oversold ?p))
          \<and> \<not> flt (long_stop ?p ?s) (Fin (last (self_data_Close ?s)))"
    unfolding ls by (simp add: fgt_def TrendFilteredRSI_defaults_def)
  have ht: "flt (Fin (last (self_data_Close ?t))) (last (self_ema_long ?t))
          \<and> fgt (last (self_rsi ?t)) (Fin (overbought ?p))
          \<and> \<not> fgt (short_stop ?p ?t) (Fin (last (self_data_Close ?t)))"
    unfolding st by (simp add: fgt_def TrendFilteredRSI_defaults_def)
  from tf_illogical_stop_rejected [OF rs fs] hs
  have 1: "TrendFilteredRSI_next ?p ?s =
      Inr (NoAction, [IllogicalSLBuy (long_stop ?p ?s) (last (self_data_Close ?s))])"
    by blast
  from tf_illogical_stop_rejected [OF rt ft] ht
  have 2: "TrendFilteredRSI_next ?p ?t =
      Inr (NoAction, [IllogicalSLSell (short_stop ?p ?t) (last (self_data_Close ?t))])"
    by blast
  from 1 2 show ?thesis unfolding ls st by simp
qed


section \<open>Undefined indicator values\<close>

text \<open>
  C9. At a bar where an indicator value read by the decision step is not-a-number, the
  step returns normally and does nothing: in the trend-filtered RSI strategy by its
  explicit check of the current RSI, EMA and ATR, in the RSI mean-reversion and the MACD
  strategies because every comparison with not-a-number is false.
\<close>

theorem undefined_indicator_skips_bar:
  "(self_data_Close s \<noteq> [] \<and> self_rsi s \<noteq> [] \<and> self_ema_long s \<noteq> [] \<and> self_atr s \<noteq> []
      \<and> (isna (last (self_rsi s)) \<or> isna (last (self_ema_long s)) \<or> isna (last (self_atr s)))
      \<longrightarrow> TrendFilteredRSI_next p s = Inr (NoAction, []))
   \<and> (rsi_seen \<noteq> [] \<and> isna (last rsi_seen)
      \<longrightarrow> RSIMeanReversion_next q pos rsi_seen = Inr NoAction)
   \<and> (2 \<le> length m \<and> 2 \<le> length sg
      \<and> (isna (nth_back m 1) \<or> isna (nth_back sg 1)
           \<or> isna (nth_back m 2) \<or> isna (nth_back sg 2))
      \<longrightarrow> MACDCrossover_next pos m sg = NoAction)"
proof (intro conjI impI)
  assume "self_data_Close s \<noteq> [] \<and> self_rsi s \<noteq> [] \<and> self_ema_long s \<noteq> []
      \<and> self_atr s \<noteq> []
      \<and> (isna (last (self_rsi s)) \<or> isna (last (self_ema_long s)) \<or> isna (last (self_atr s)))"
  then show "TrendFilteredRSI_next p s = Inr (NoAction, [])"
    by (auto simp add: TrendFilteredRSI_next_def last_of_def)
next
  assume "rsi_seen \<noteq> [] \<and> isna (last rsi_seen)"
  then show "RSIMeanReversion_next q pos rsi_seen = Inr NoAction"
    by (simp add: RSIMeanReversion_next_def last_of_def isna_def fgt_def)
next
  assume "2 \<le> length m \<and> 2 \<le> length sg
      \<and> (isna (nth_back m 1) \<or> isna (nth_back sg 1)
           \<or> isna (nth_back m 2) \<or> isna (nth_back sg 2))"
  then show "MACDCrossover_next pos m sg = NoAction"
    by (auto simp add: MACDCrossover_next_def isna_def fgt_def)
qed

text \<open>
  Witness for C9: the example view with the ATR undefined; a long position with the RSI
  undefined; a long position with the current signal value undefined.
\<close>

theorem undefined_indicator_skips_bar_witness:
  "TrendFilteredRSI_next
     (TrendFilteredRSI_defaults\<lparr>rsi_period := 1, ema_period := 1, atr_period := 1\<rparr>)
     \<lparr>self_data_Close = [10], self_rsi = [Fin 20], self_ema_long = [Fin 9],
      self_atr = [NaN], self_position = Flat\<rparr>
     = Inr (NoAction, [])
   \<and> RSIMeanReversion_next RSIMeanReversion_defaults Long [Fin 80, NaN] = Inr NoAction
   \<and> MACDCrossover_next Long [Fin 2, Fin 0] [Fin 1, NaN] = NoAction"
proof -
  let ?p = "TrendFilteredRSI_defaults\<lparr>rsi_period := 1, ema_period := 1, atr_period := 1\<rparr>"
  let ?s = "\<lparr>self_data_Close = [10], self_rsi = [Fin 20], self_ema_long = [Fin 9],
      self_atr = [NaN], self_position = Flat\<rparr>"
  have h1: "self_data_Close ?s \<noteq> [] \<and> self_rsi ?s \<noteq> [] \<and> self_ema_long ?s \<noteq> []
      \<and> self_atr ?s \<noteq> []
      \<and> (isna (last (self_rsi ?s)) \<or> isna (last (self_ema_long ?s))
           \<or> isna (last (self_atr ?s)))"
    by (simp add: isna_def)
  have h2: "[Fin 80, NaN] \<noteq> [] \<and> isna (last [Fin 80, NaN])"
    by (simp add: isna_def)
  have h3: "2 \<le> length [Fin 2, Fin 0] \<and> 2 \<le> length [Fin 1, NaN]
      \<and> (isna (nth_back [Fin 2, Fin 0] 1) \<or> isna (nth_back [Fin 1, NaN] 1)
           \<or> isna (nth_back [Fin 2, Fin 0] 2) \<or> isna (nth_back [Fin 1, NaN] 2))"
    by (simp add: isna_def nth_back_def)
  from undefined_indicator_skips_bar [of ?s ?p] h1
  have 1: "TrendFilteredRSI_next ?p ?s = Inr (NoAction, [])" by blast
  from undefined_indicator_skips_bar [of _ _ "[Fin 80, NaN]" RSIMeanReversion_defaults Long] h2
  have 2: "RSIMeanReversion_next RSIMeanReversion_defaults Long [Fin 80, NaN] = Inr NoAction"
    by blast
  from undefined_indicator_skips_bar [of _ _ _ _ Long "[Fin 2, Fin 0]" "[Fin 1, NaN]"] h3
  have 3: "MACDCrossover_next Long [Fin 2, Fin 0] [Fin 1, NaN] = NoAction" by blast
  from 1 2 3 show ?thesis by blast
qed

section \<open>Too little data\<close>

lemma length_twenty_bars [simp]: "length twenty_bars = 20"
  by (simp add: twenty_bars_def)




section \<open>The EMA helper of macd.py\<close>

lemma length_ema_loop [simp]: "length (ema_loop alpha prev xs) = length xs"
  by (induction xs arbitrary: prev) simp_all

lemma nth_ema_loop:
  "i < length xs \<Longrightarrow>
   ema_loop alpha prev xs ! i =
     alpha * xs ! i + (1 - alpha) * (if i = 0 then prev else ema_loop alpha prev xs ! (i - 1))"
proof (induction xs arbitrary: prev i)
  case Nil
  then show ?case by simp
next
  case (Cons x xs)
  show ?case
  proof (cases i)
    case 0
    then show ?thesis by simp
  next
    case (Suc j)
    with Cons.prems have "j < length xs" by simp
    from Cons.IH [OF this] Suc show ?thesis
      by (cases j) simp_all
  qed
qed

text \<open>
  The helper \<open>ema\<close> returns, for a non-empty array and \<open>n \<noteq> -1\<close>, an array of the same
  length that starts with the first value and follows the smoothing recurrence with
  \<open>alpha = 2 / (n + 1)\<close>: there is no warm-up gap.
\<close>

lemma ema_recurrence:
  assumes "arr \<noteq> []" and "n + 1 \<noteq> 0"
  shows "\<exists>e. ema arr n = Inr e \<and> length e = length arr \<and> e ! 0 = arr ! 0
    \<and> (\<forall>i. 0 < i \<and> i < length arr \<longrightarrow>
          e ! i = 2 / real_of_int (n + 1) * arr ! i
                  + (1 - 2 / real_of_int (n + 1)) * e ! (i - 1))"
proof (cases arr)
  case Nil
  with assms show ?thesis by simp
next
  case (Cons x xs)
  have "(x # ema_loop a x xs) ! i = a * (x # xs) ! i + (1 - a) * (x # ema_loop a x xs) ! (i - 1)"
    if "0 < i" "i < length (x # xs)" for i a
  proof -
    from that obtain j where j: "i = Suc j" "j < length xs" by (cases i) simp_all
    show ?thesis using nth_ema_loop [OF j(2), of a x] by (cases j) (simp_all add: j)
  qed
  with assms Cons show ?thesis by (simp add: ema_def)
qed

lemma ema_errors:
  "ema arr (- 1) = Inl ZeroDivisionError" "n + 1 \<noteq> 0 \<Longrightarrow> ema [] n = Inl IndexError"
  by (simp_all add: ema_def)

end
